theory Spec2Isabelle
  imports Main "HOL-Library.Word" "HOL-Library.Signed_Division" "HOL-Library.Char_ord"
begin

unbundle bit_operations_syntax

section \<open>Response codec: makeNTPResponse\<close>

text \<open>
  The three program texts of the repository (src/main.go and the two programs of
  src/unnamed/part_001) share one \<open>makeNTPResponse\<close>, character for character apart
  from comments. It reads the clock itself (\<open>time.Now().UTC()\<close>); here the clock
  reading is the argument. Of the reading only \<open>now.Unix()\<close> (an int64) and
  \<open>now.Nanosecond()\<close> (an int, which the time package keeps in 0..999999999) are used.
\<close>

type_synonym byte = "8 word"

record time =
  Unix :: int
  Nanosecond :: int

text \<open>Go's int64 addition wraps; \<open>int64\<close> is the wrap-around written out.\<close>

definition int64 :: "int \<Rightarrow> int" where
  "int64 k = signed_take_bit 63 k"

text \<open>\<open>seconds := uint32(now.Unix() + 2208988800)\<close>\<close>

definition seconds :: "time \<Rightarrow> 32 word" where
  "seconds now = word_of_int (int64 (Unix now + 2208988800))"

text \<open>\<open>fraction := uint32(now.Nanosecond() / 1000)\<close>; Go's \<open>/\<close> truncates towards zero.\<close>

definition fraction :: "time \<Rightarrow> 32 word" where
  "fraction now = word_of_int (Nanosecond now sdiv 1000)"

definition makeNTPResponse :: "time \<Rightarrow> byte list" where
  "makeNTPResponse now =
     (let response = replicate 48 (0 :: byte);
          response = response[0 := 0x1c];
          response = response[40 := ucast (drop_bit 24 (seconds now))];
          response = response[41 := ucast (drop_bit 16 (seconds now))];
          response = response[42 := ucast (drop_bit 8 (seconds now))];
          response = response[43 := ucast (seconds now)];
          response = response[44 := ucast (drop_bit 24 (fraction now))];
          response = response[45 := ucast (drop_bit 16 (fraction now))];
          response = response[46 := ucast (drop_bit 8 (fraction now))];
          response = response[47 := ucast (fraction now)]
      in response)"

text \<open>
  The reader's side of the wire format: four bytes, most significant first, as one
  32-bit value. It is not part of the program; the claims about "big-endian" fields are
  stated with it.
\<close>

definition be32 :: "byte list \<Rightarrow> 32 word" where
  "be32 bs = push_bit 24 (ucast (bs ! 0)) OR push_bit 16 (ucast (bs ! 1))
             OR push_bit 8 (ucast (bs ! 2)) OR ucast (bs ! 3)"


section \<open>The three program texts\<close>

text \<open>
  The repository holds three texts of the program:
  \<^item> \<open>v1\<close>: src/main.go. The listener answers every datagram of at least one byte
    and enqueues an alert for every datagram; the dispatcher puts the message text into
    the URL as it is; the pool holds slices.
  \<^item> the first program of src/unnamed/part_001 (lines 1-172): the listener validates size
    and mode as \<open>v3\<close> does, with the alert text and the dispatcher of \<open>v1\<close>. No claim
    cites it and it is not modelled.
  \<^item> \<open>v3\<close>: the second program of src/unnamed/part_001 (lines 173-407). The listener
    validates size and mode and looks the requester up; the dispatcher escapes the
    message text; the pool holds pointers to slices.
  Definitions carry the suffix of the text they embed; what is shared carries none.
\<close>

section \<open>Errors, addresses, HTTP\<close>

text \<open>A Go \<open>error\<close> value, by its message.\<close>

datatype error = Error string

text \<open>
  Of a \<open>*net.UDPAddr\<close> the program uses two renderings, both the library's:
  \<open>clientAddr.String()\<close> and \<open>clientAddr.IP.String()\<close>.
\<close>

record UDPAddr =
  addr_String :: string
  IP_String :: string

text \<open>Of an \<open>*http.Response\<close> the program reads the status and the body.\<close>

record response =
  StatusCode :: nat
  Status :: string
  Body :: string

text \<open>The struct of part_001, line 200.\<close>

record GeoIP =
  Country :: string
  City :: string
  ASN :: string
  ISP :: string

section \<open>Message texts\<close>

text \<open>
  Go strings are byte sequences, and the source's literals are UTF-8; the Cyrillic text
  is written out in bytes. \<open>sync_text\<close> is the common head of the three alert formats,
  up to the first \<open>%s\<close>.
\<close>

definition sync_text :: string where
  "sync_text =
     [CHR 0xD0, CHR 0xA1, CHR 0xD0, CHR 0xB8, CHR 0xD0, CHR 0xBD, CHR 0xD1, CHR 0x85,
      CHR 0xD1, CHR 0x80, CHR 0xD0, CHR 0xBE, CHR 0xD0, CHR 0xBD, CHR 0xD0, CHR 0xB8,
      CHR 0xD0, CHR 0xB7, CHR 0xD0, CHR 0xB0, CHR 0xD1, CHR 0x86, CHR 0xD0, CHR 0xB8,
      CHR 0xD1, CHR 0x8F] @ '' NTP '' @ [CHR 0xD1, CHR 0x81] @ '' '' @
     [CHR 0xD0, CHR 0xBA, CHR 0xD0, CHR 0xBB, CHR 0xD0, CHR 0xB8, CHR 0xD0, CHR 0xB5,
      CHR 0xD0, CHR 0xBD, CHR 0xD1, CHR 0x82, CHR 0xD0, CHR 0xBE, CHR 0xD0, CHR 0xBC] @ '': ''"

text \<open>The tail of the fallback format of part_001, line 324: location not determined.\<close>

definition unknown_location :: string where
  "unknown_location =
     '' ('' @ [CHR 0xD0, CHR 0xB3, CHR 0xD0, CHR 0xB5, CHR 0xD0, CHR 0xBE, CHR 0xD0, CHR 0xBB,
      CHR 0xD0, CHR 0xBE, CHR 0xD0, CHR 0xBA, CHR 0xD0, CHR 0xB0, CHR 0xD1, CHR 0x86,
      CHR 0xD0, CHR 0xB8, CHR 0xD1, CHR 0x8F] @ '' '' @ [CHR 0xD0, CHR 0xBD, CHR 0xD0, CHR 0xB5] @
     '' '' @ [CHR 0xD0, CHR 0xBE, CHR 0xD0, CHR 0xBF, CHR 0xD1, CHR 0x80, CHR 0xD0, CHR 0xB5,
      CHR 0xD0, CHR 0xB4, CHR 0xD0, CHR 0xB5, CHR 0xD0, CHR 0xBB, CHR 0xD0, CHR 0xB5,
      CHR 0xD0, CHR 0xBD, CHR 0xD0, CHR 0xB0] @ '')''"

text \<open>\<open>fmt.Sprintf\<close> of main.go, line 124.\<close>

definition alert_v1 :: "string \<Rightarrow> string" where
  "alert_v1 addr = sync_text @ addr"

text \<open>\<open>fmt.Sprintf\<close> of part_001, line 324.\<close>

definition alert_unknown :: "string \<Rightarrow> string" where
  "alert_unknown ip = sync_text @ ip @ unknown_location"

text \<open>\<open>fmt.Sprintf\<close> of part_001, lines 326-327.\<close>

definition alert_geo :: "string \<Rightarrow> GeoIP \<Rightarrow> string" where
  "alert_geo ip geo =
     sync_text @ ip @
     [CHR 0x0A, CHR 0xD0, CHR 0xA1, CHR 0xD1, CHR 0x82, CHR 0xD1, CHR 0x80, CHR 0xD0, CHR 0xB0,
      CHR 0xD0, CHR 0xBD, CHR 0xD0, CHR 0xB0] @ '': '' @ Country geo @
     [CHR 0x0A, CHR 0xD0, CHR 0x93, CHR 0xD0, CHR 0xBE, CHR 0xD1, CHR 0x80, CHR 0xD0, CHR 0xBE,
      CHR 0xD0, CHR 0xB4] @ '': '' @ City geo @
     [CHR 0x0A] @ ''ASN: '' @ ASN geo @
     [CHR 0x0A, CHR 0xD0, CHR 0x9F, CHR 0xD1, CHR 0x80, CHR 0xD0, CHR 0xBE, CHR 0xD0, CHR 0xB2,
      CHR 0xD0, CHR 0xB0, CHR 0xD0, CHR 0xB9, CHR 0xD0, CHR 0xB4, CHR 0xD0, CHR 0xB5, CHR 0xD1,
      CHR 0x80] @ '': '' @ ISP geo"

section \<open>Geolocation client: getGeoIP (part_001, lines 253-272)\<close>

text \<open>
  \<open>http.Get\<close> is the environment: a function from the URL to what the call returned.
  \<open>json.NewDecoder(resp.Body).Decode(&geo)\<close> is the library's and is a parameter, from
  the body to the decoded struct or the decoder's error. The Go function returns the
  pair \<open>(geo, err)\<close>; its caller reads \<open>geo\<close> only when \<open>err\<close> is nil, so the result
  is a sum.
\<close>

definition getGeoIP ::
  "(string \<Rightarrow> error + response) \<Rightarrow> (string \<Rightarrow> error + GeoIP) \<Rightarrow> string \<Rightarrow> error + GeoIP" where
  "getGeoIP http_Get Decode ip =
     (let url = ''http://ip-api.com/json/'' @ ip @ ''?fields=country,city,as,isp'' in
      case http_Get url of
        Inl err \<Rightarrow> Inl err
      | Inr resp \<Rightarrow>
          if StatusCode resp \<noteq> 200
          then Inl (Error (''API '' @ [CHR 0xD0, CHR 0xB2, CHR 0xD0, CHR 0xB5, CHR 0xD1, CHR 0x80,
                 CHR 0xD0, CHR 0xBD, CHR 0xD1, CHR 0x83, CHR 0xD0, CHR 0xBB] @ '' '' @
                 [CHR 0xD0, CHR 0xBE, CHR 0xD1, CHR 0x88, CHR 0xD0, CHR 0xB8, CHR 0xD0, CHR 0xB1,
                  CHR 0xD0, CHR 0xBA, CHR 0xD1, CHR 0x83] @ '': '' @ Status resp))
          else (case Decode (Body resp) of
                  Inl err \<Rightarrow> Inl err
                | Inr geo \<Rightarrow> Inr geo))"

section \<open>The state the two loops work on\<close>

text \<open>One entry of the log, by the call that wrote it, with the fields a claim may read.\<close>

datatype log =
    Info_NTP_Stopped
  | Warn_Read
  | Warn_Write
  | Warn_Geo
  | Warn_Queue_Full
  | Info_Bad_Request string byte
  | Info_Bad_Size string nat
  | Info_Telegram_Stopped
  | Warn_Telegram_Send
  | Warn_Telegram_Status string

text \<open>
  \<^item> \<open>arrays\<close>: the backing arrays on the heap, by address; \<open>cells\<close>: the heap variables
    of type \<open>[]byte\<close> (the targets of a \<open>*[]byte\<close>), by address, each holding a slice.
    Every slice of the program has length and capacity 48, so a slice is the address of
    its array. \<open>fresh\<close> is the next address not yet allocated.
  \<^item> \<open>bufPool\<close>: what has been put into the \<open>sync.Pool\<close> and not been taken out:
    slices in \<open>v1\<close>, pointers to slices in \<open>v3\<close>.
  \<^item> \<open>msgChan\<close>: the buffer of the channel, oldest first.
  \<^item> \<open>writes\<close>: the calls of \<open>conn.WriteToUDP\<close>, payload and destination.
  \<^item> \<open>requests\<close>: the URLs the dispatcher passed to \<open>http.Get\<close>.
\<close>

record system =
  arrays :: "nat \<Rightarrow> byte list"
  cells :: "nat \<Rightarrow> nat"
  fresh :: nat
  bufPool :: "nat list"
  msgChan :: "string list"
  writes :: "(byte list \<times> UDPAddr) list"
  requests :: "string list"
  logs :: "log list"

text \<open>The state when \<open>main\<close> has started both goroutines and the pool is new.\<close>

definition init :: system where
  "init = \<lparr>arrays = (\<lambda>_. []), cells = (\<lambda>_. 0), fresh = 0, bufPool = [], msgChan = [],
            writes = [], requests = [], logs = []\<rparr>"

definition log :: "log \<Rightarrow> system \<Rightarrow> system" where
  "log e s = s\<lparr>logs := logs s @ [e]\<rparr>"

datatype status = Running | Returned

section \<open>Notification queue: msgChan\<close>

text \<open>\<open>make(chan string, 100)\<close> in \<open>main\<close>.\<close>

definition capacity :: nat where
  "capacity = 100"

text \<open>
  The non-blocking send of both listeners:
  \<open>select { case msgChan <- msg: default: logger.Warn(...) }\<close>.
  A send on a buffered channel goes through when the buffer has room; otherwise the
  \<open>default\<close> case runs. Either way the statement is over at once.
\<close>

definition offer :: "string \<Rightarrow> system \<Rightarrow> system" where
  "offer msg s =
     (if length (msgChan s) < capacity
      then s\<lparr>msgChan := msgChan s @ [msg]\<rparr>
      else log Warn_Queue_Full s)"

section \<open>Buffer pool\<close>

text \<open>
  \<open>New\<close> of main.go, line 98: \<open>make([]byte, 48)\<close>, a new zeroed array; the item is the
  slice.
\<close>

definition New_v1 :: "system \<Rightarrow> nat \<times> system" where
  "New_v1 s =
     (fresh s,
      s\<lparr>arrays := (arrays s)(fresh s := replicate 48 0), fresh := Suc (fresh s)\<rparr>)"

text \<open>
  \<open>New\<close> of part_001, line 290: \<open>b := make([]byte, 48); return &b\<close>, a new zeroed
  array and a new variable \<open>b\<close> holding its slice; the item is the address of \<open>b\<close>.
\<close>

definition New_v3 :: "system \<Rightarrow> nat \<times> system" where
  "New_v3 s =
     (Suc (fresh s),
      s\<lparr>arrays := (arrays s)(fresh s := replicate 48 0),
        cells := (cells s)(Suc (fresh s) := fresh s),
        fresh := Suc (Suc (fresh s))\<rparr>)"

text \<open>
  \<open>bufPool.Get()\<close>. The library hands out any one of the pooled items and removes it,
  or finds none and calls \<open>New\<close>; which, is the environment's choice \<open>pick\<close>: the
  position of the item handed out, or \<open>None\<close>. An item the runtime has dropped is an
  item that is never picked.
\<close>

definition Get :: "(system \<Rightarrow> nat \<times> system) \<Rightarrow> nat option \<Rightarrow> system \<Rightarrow> nat \<times> system" where
  "Get New pick s =
     (case pick of
        None \<Rightarrow> New s
      | Some i \<Rightarrow>
          if i < length (bufPool s)
          then (bufPool s ! i, s\<lparr>bufPool := take i (bufPool s) @ drop (Suc i) (bufPool s)\<rparr>)
          else New s)"

text \<open>\<open>bufPool.Put(x)\<close>\<close>

definition Put :: "nat \<Rightarrow> system \<Rightarrow> system" where
  "Put x s = s\<lparr>bufPool := bufPool s @ [x]\<rparr>"

text \<open>
  A variable of type \<open>[]byte\<close> whose address is taken (\<open>buf\<close> of part_001, line 299,
  for \<open>&buf\<close>): a new cell initialised with the slice.
\<close>

definition new_cell :: "nat \<Rightarrow> system \<Rightarrow> nat \<times> system" where
  "new_cell sl s = (fresh s, s\<lparr>cells := (cells s)(fresh s := sl), fresh := Suc (fresh s)\<rparr>)"

text \<open>
  What a successful \<open>conn.ReadFromUDP(buf)\<close> does to the array of \<open>buf\<close>: the bytes
  read replace its front.
\<close>

definition store :: "nat \<Rightarrow> byte list \<Rightarrow> system \<Rightarrow> system" where
  "store a data s = s\<lparr>arrays := (arrays s)(a := take 48 (data @ drop (length data) (arrays s a)))\<rparr>"

section \<open>Request listener: the loop of startNTPServer\<close>

text \<open>
  What the environment gives one iteration of the loop:
  \<^item> \<open>ctx_Done\<close>: whether \<open>ctx.Done()\<close> is ready when the \<open>select\<close> runs;
  \<^item> \<open>pick\<close>: the pool's choice, see \<open>Get\<close>;
  \<^item> \<open>ReadFromUDP\<close>: the error of the read, or the bytes it stored in \<open>buf\<close> (their
    number is the \<open>n\<close> of the source, at most the 48 that \<open>buf\<close> holds) and the
    sender;
  \<^item> \<open>clock\<close>: what \<open>time.Now()\<close> returns;
  \<^item> \<open>WriteToUDP\<close>: the error of the send, if any;
  \<^item> \<open>http_Get\<close>: what \<open>http.Get\<close> returns for a URL (\<open>v3\<close> only).
  The datagram on the wire is not in the model: the program sees the read's result only.
  The model starts where the loop starts: resolving the address and binding the socket
  come before it, and their failure ends the process (\<open>logger.Fatal\<close>) before any
  datagram is read.
\<close>

record input =
  ctx_Done :: bool
  pick :: "nat option"
  ReadFromUDP :: "error + byte list \<times> UDPAddr"
  clock :: time
  WriteToUDP :: "error option"
  http_Get :: "string \<Rightarrow> error + response"

text \<open>\<open>conn.WriteToUDP(response, clientAddr)\<close> and the warning on its error.\<close>

definition reply :: "input \<Rightarrow> byte list \<Rightarrow> UDPAddr \<Rightarrow> system \<Rightarrow> system" where
  "reply inp response clientAddr s =
     (let s = s\<lparr>writes := writes s @ [(response, clientAddr)]\<rparr> in
      case WriteToUDP inp of
        Some err \<Rightarrow> log Warn_Write s
      | None \<Rightarrow> s)"

text \<open>One iteration of the loop of main.go, lines 101-133.\<close>

definition startNTPServer_v1 :: "input \<Rightarrow> system \<Rightarrow> status \<times> system" where
  "startNTPServer_v1 inp s =
     (if ctx_Done inp then (Returned, log Info_NTP_Stopped s)
      else
        let (buf, s) = Get New_v1 (pick inp) s in
        case ReadFromUDP inp of
          Inl err \<Rightarrow> (Running, Put buf (log Warn_Read s))
        | Inr (data, clientAddr) \<Rightarrow>
            let s = store buf data s;
                n = length data;
                response = makeNTPResponse (clock inp);
                s = (if n > 0 then reply inp response clientAddr s else s);
                msg = alert_v1 (addr_String clientAddr);
                s = offer msg s
            in (Running, Put buf s))"

text \<open>The branch for a request of 48 bytes and mode 3: part_001, lines 310-335.\<close>

definition serve_v3 ::
  "(string \<Rightarrow> error + GeoIP) \<Rightarrow> input \<Rightarrow> UDPAddr \<Rightarrow> system \<Rightarrow> system" where
  "serve_v3 Decode inp clientAddr s =
     (let response = makeNTPResponse (clock inp);
          s = reply inp response clientAddr s;
          ip = IP_String clientAddr
      in case getGeoIP (http_Get inp) Decode ip of
           Inl err \<Rightarrow> offer (alert_unknown ip) (log Warn_Geo s)
         | Inr geo \<Rightarrow> offer (alert_geo ip geo) s)"

text \<open>One iteration of the loop of part_001, lines 293-349.\<close>

definition startNTPServer_v3 ::
  "(string \<Rightarrow> error + GeoIP) \<Rightarrow> input \<Rightarrow> system \<Rightarrow> status \<times> system" where
  "startNTPServer_v3 Decode inp s =
     (if ctx_Done inp then (Returned, log Info_NTP_Stopped s)
      else
        let (p, s) = Get New_v3 (pick inp) s;
            (buf, s) = new_cell (cells s p) s
        in
        case ReadFromUDP inp of
          Inl err \<Rightarrow> (Running, Put buf (log Warn_Read s))
        | Inr (data, clientAddr) \<Rightarrow>
            let s = store (cells s buf) data s;
                n = length data;
                s = (if n = 48 then
                       let mode = (arrays s (cells s buf) ! 0) AND 0x07 in
                       if mode = 3 then serve_v3 Decode inp clientAddr s
                       else log (Info_Bad_Request (addr_String clientAddr) mode) s
                     else log (Info_Bad_Size (addr_String clientAddr) n) s)
            in (Running, Put buf s))"

section \<open>Notification dispatcher: the loop of processTelegramMessages\<close>

text \<open>
  Modelled from the spec: \<open>url.QueryEscape\<close> is the Go library's and is not under src/;
  the spec asks for the text to be "percent-encoded". The library's rule for a query
  component: letters, digits and \<open>- _ . ~\<close> stay, a space becomes \<open>+\<close>, every other
  byte becomes \<open>%\<close> and its two upper-case hexadecimal digits.
\<close>

definition unreserved :: "char \<Rightarrow> bool" where
  "unreserved c \<longleftrightarrow>
     (CHR ''a'' \<le> c \<and> c \<le> CHR ''z'') \<or> (CHR ''A'' \<le> c \<and> c \<le> CHR ''Z'') \<or>
     (CHR ''0'' \<le> c \<and> c \<le> CHR ''9'') \<or> c \<in> set ''-_.~''"

definition upperhex :: "nat \<Rightarrow> char" where
  "upperhex n = ''0123456789ABCDEF'' ! n"

definition escape_byte :: "char \<Rightarrow> string" where
  "escape_byte c =
     (if unreserved c then [c]
      else if c = CHR '' '' then ''+''
      else [CHR ''%'', upperhex (of_char c div 16), upperhex (of_char c mod 16)])"

definition QueryEscape :: "string \<Rightarrow> string" where
  "QueryEscape s = concat (map escape_byte s)"

text \<open>
  What the environment gives one iteration of the dispatcher's loop: which case of the
  \<open>select\<close> fires, and what \<open>http.Get\<close> returns for a URL.
\<close>

datatype fired = Ctx_Done | Msg_Received

record dinput =
  fired :: fired
  tg_Get :: "string \<Rightarrow> error + response"

text \<open>
  The end of the \<open>Msg_Received\<close> case in both texts: \<open>http.Get\<close>, a warning on its
  error, a warning on a status other than 200, and the next iteration either way.
  \<open>defer resp.Body.Close()\<close> runs when the function returns, not in the loop, and
  touches nothing of the state.
\<close>

definition deliver :: "dinput \<Rightarrow> string \<Rightarrow> system \<Rightarrow> system" where
  "deliver inp url s =
     (let s = s\<lparr>requests := requests s @ [url]\<rparr> in
      case tg_Get inp url of
        Inl err \<Rightarrow> log Warn_Telegram_Send s
      | Inr resp \<Rightarrow>
          if StatusCode resp \<noteq> 200 then log (Warn_Telegram_Status (Status resp)) s else s)"

text \<open>
  One iteration of the loop of main.go, lines 159-177. The receive case cannot fire on
  an empty channel: the \<open>select\<close> goes on waiting and nothing changes.
\<close>

definition processTelegramMessages_v1 ::
  "string \<Rightarrow> string \<Rightarrow> dinput \<Rightarrow> system \<Rightarrow> status \<times> system" where
  "processTelegramMessages_v1 token chatID inp s =
     (case fired inp of
        Ctx_Done \<Rightarrow> (Returned, log Info_Telegram_Stopped s)
      | Msg_Received \<Rightarrow>
          (case msgChan s of
             [] \<Rightarrow> (Running, s)
           | msg # rest \<Rightarrow>
               let s = s\<lparr>msgChan := rest\<rparr>;
                   url = ''https://api.telegram.org/bot'' @ token @ ''/sendMessage?chat_id='' @
                         chatID @ ''&text='' @ msg
               in (Running, deliver inp url s)))"

text \<open>One iteration of the loop of part_001, lines 374-406.\<close>

definition processTelegramMessages_v3 ::
  "string \<Rightarrow> string \<Rightarrow> dinput \<Rightarrow> system \<Rightarrow> status \<times> system" where
  "processTelegramMessages_v3 token chatID inp s =
     (case fired inp of
        Ctx_Done \<Rightarrow> (Returned, log Info_Telegram_Stopped s)
      | Msg_Received \<Rightarrow>
          (case msgChan s of
             [] \<Rightarrow> (Running, s)
           | msg # rest \<Rightarrow>
               let s = s\<lparr>msgChan := rest\<rparr>;
                   text = QueryEscape msg;
                   urlStr = ''https://api.telegram.org/bot'' @ token @ ''/sendMessage?chat_id='' @
                            chatID @ ''&text='' @ text
               in (Running, deliver inp urlStr s)))"

section \<open>The two goroutines together\<close>

text \<open>
  \<open>main\<close> starts one dispatcher and one listener on the same channel. A schedule is the
  order in which their iterations take effect, each with what the environment gave it.
  A goroutine that has returned runs no more iterations. The channel is all the two
  share, and an iteration of either loop touches it once (the listener's offer, the
  dispatcher's receive), so for the channel every interleaving of the two goroutines is
  one of these orders.
\<close>

datatype event = Listener input | Dispatcher dinput

record program =
  listener :: status
  dispatcher :: status
  state :: system

definition start :: program where
  "start = \<lparr>listener = Running, dispatcher = Running, state = init\<rparr>"

definition step ::
  "(input \<Rightarrow> system \<Rightarrow> status \<times> system) \<Rightarrow> (dinput \<Rightarrow> system \<Rightarrow> status \<times> system) \<Rightarrow>
   event \<Rightarrow> program \<Rightarrow> program" where
  "step L D e p =
     (case e of
        Listener inp \<Rightarrow>
          if listener p = Returned then p
          else (let (st, s) = L inp (state p) in p\<lparr>listener := st, state := s\<rparr>)
      | Dispatcher inp \<Rightarrow>
          if dispatcher p = Returned then p
          else (let (st, s) = D inp (state p) in p\<lparr>dispatcher := st, state := s\<rparr>))"

definition run ::
  "(input \<Rightarrow> system \<Rightarrow> status \<times> system) \<Rightarrow> (dinput \<Rightarrow> system \<Rightarrow> status \<times> system) \<Rightarrow>
   event list \<Rightarrow> program \<Rightarrow> program" where
  "run L D es p = foldl (\<lambda>p e. step L D e p) p es"

text \<open>The program of main.go and the second program of part_001.\<close>

definition run_v1 :: "string \<Rightarrow> string \<Rightarrow> event list \<Rightarrow> program \<Rightarrow> program" where
  "run_v1 token chatID = run startNTPServer_v1 (processTelegramMessages_v1 token chatID)"

definition run_v3 ::
  "(string \<Rightarrow> error + GeoIP) \<Rightarrow> string \<Rightarrow> string \<Rightarrow> event list \<Rightarrow> program \<Rightarrow> program" where
  "run_v3 Decode token chatID =
     run (startNTPServer_v3 Decode) (processTelegramMessages_v3 token chatID)"


section \<open>Which storage the pool holds\<close>

text \<open>
  The arrays behind the pooled items: in \<open>v1\<close> an item is a slice, in \<open>v3\<close> a pointer
  to a variable that holds one.
\<close>

definition storage_v1 :: "system \<Rightarrow> nat list" where
  "storage_v1 s = bufPool s"

definition storage_v3 :: "system \<Rightarrow> nat list" where
  "storage_v3 s = map (cells s) (bufPool s)"

text \<open>
  The array of the buffer an iteration checks out (\<open>buf\<close> of main.go, line 107, and of
  part_001, line 299), and the arrays the pool still holds while the buffer is out.
\<close>

definition checked_out_v1 :: "input \<Rightarrow> system \<Rightarrow> nat" where
  "checked_out_v1 inp s = fst (Get New_v1 (pick inp) s)"

definition checked_out_v3 :: "input \<Rightarrow> system \<Rightarrow> nat" where
  "checked_out_v3 inp s = (let (p, s) = Get New_v3 (pick inp) s in cells s p)"

definition left_v1 :: "input \<Rightarrow> system \<Rightarrow> nat list" where
  "left_v1 inp s = storage_v1 (snd (Get New_v1 (pick inp) s))"

definition left_v3 :: "input \<Rightarrow> system \<Rightarrow> nat list" where
  "left_v3 inp s = storage_v3 (snd (Get New_v3 (pick inp) s))"

text \<open>
  No two pooled items share an array, and everything pooled has been allocated.
\<close>

definition pool_ok_v1 :: "system \<Rightarrow> bool" where
  "pool_ok_v1 s \<longleftrightarrow> distinct (storage_v1 s) \<and> (\<forall>a \<in> set (bufPool s). a < fresh s)"

definition pool_ok_v3 :: "system \<Rightarrow> bool" where
  "pool_ok_v3 s \<longleftrightarrow>
     distinct (storage_v3 s) \<and> (\<forall>p \<in> set (bufPool s). p < fresh s \<and> cells s p < fresh s)"

section \<open>Concrete inputs\<close>

text \<open>A requester, a clock reading, a lookup service that cannot be reached, a decoder
  that rejects every body, and the iteration that reads a given datagram from the
  requester with nothing else going wrong.\<close>

definition client :: UDPAddr where
  "client = \<lparr>addr_String = ''192.0.2.7:123'', IP_String = ''192.0.2.7''\<rparr>"

definition reading :: time where
  "reading = \<lparr>Unix = 1793000000, Nanosecond = 5000\<rparr>"

definition unreachable :: "string \<Rightarrow> error + response" where
  "unreachable url = Inl (Error ''connection refused'')"

definition undecodable :: "string \<Rightarrow> error + GeoIP" where
  "undecodable body = Inl (Error ''invalid character'')"

definition datagram :: "byte list \<Rightarrow> input" where
  "datagram data =
     \<lparr>ctx_Done = False, pick = None, ReadFromUDP = Inr (data, client), clock = reading,
      WriteToUDP = None, http_Get = unreachable\<rparr>"

section \<open>The reply's layout\<close>

lemma replicate_48:
  "replicate 48 (x :: byte) =
     [x, x, x, x, x, x, x, x, x, x, x, x, x, x, x, x, x, x, x, x, x, x, x, x,
      x, x, x, x, x, x, x, x, x, x, x, x, x, x, x, x, x, x, x, x, x, x, x, x]"
  by (simp add: numeral_eq_Suc)

lemma makeNTPResponse_bytes:
  "makeNTPResponse now =
     0x1c # replicate 39 0 @
     [ucast (drop_bit 24 (seconds now)), ucast (drop_bit 16 (seconds now)),
      ucast (drop_bit 8 (seconds now)), ucast (seconds now),
      ucast (drop_bit 24 (fraction now)), ucast (drop_bit 16 (fraction now)),
      ucast (drop_bit 8 (fraction now)), ucast (fraction now)]"
  unfolding makeNTPResponse_def Let_def replicate_48
  by (simp add: numeral_eq_Suc)

lemma be32_split:
  "be32 [ucast (drop_bit 24 w), ucast (drop_bit 16 w), ucast (drop_bit 8 w), ucast w] = w"
  for w :: "32 word"
  unfolding be32_def
  apply simp
  apply (rule bit_word_eqI)
  apply (auto simp: bit_simps)
   apply (rule ccontr, simp)+
  done

lemma length_makeNTPResponse: "length (makeNTPResponse now) = 48"
  by (simp add: makeNTPResponse_def Let_def)

lemma makeNTPResponse_byte0: "makeNTPResponse now ! 0 = 0x1c"
  by (simp add: makeNTPResponse_bytes)

lemma makeNTPResponse_zeros: "take 39 (drop 1 (makeNTPResponse now)) = replicate 39 0"
  by (simp add: makeNTPResponse_bytes)

lemma makeNTPResponse_seconds: "be32 (take 4 (drop 40 (makeNTPResponse now))) = seconds now"
proof -
  have "drop 40 (makeNTPResponse now) = drop 39 (replicate 39 (0::byte) @
     [ucast (drop_bit 24 (seconds now)), ucast (drop_bit 16 (seconds now)),
      ucast (drop_bit 8 (seconds now)), ucast (seconds now),
      ucast (drop_bit 24 (fraction now)), ucast (drop_bit 16 (fraction now)),
      ucast (drop_bit 8 (fraction now)), ucast (fraction now)])"
    by (simp add: makeNTPResponse_bytes)
  then show ?thesis by (simp add: be32_split)
qed

lemma makeNTPResponse_fraction: "be32 (take 4 (drop 44 (makeNTPResponse now))) = fraction now"
proof -
  have "drop 44 (makeNTPResponse now) = drop 43 (replicate 39 (0::byte) @
     [ucast (drop_bit 24 (seconds now)), ucast (drop_bit 16 (seconds now)),
      ucast (drop_bit 8 (seconds now)), ucast (seconds now),
      ucast (drop_bit 24 (fraction now)), ucast (drop_bit 16 (fraction now)),
      ucast (drop_bit 8 (fraction now)), ucast (fraction now)])"
    by (simp add: makeNTPResponse_bytes)
  then show ?thesis by (simp add: be32_split)
qed

text \<open>
  C2. For every clock reading \<open>now\<close> the reply is 48 bytes long, its byte 0 is 0x1C,
  bytes 1 to 39 are zero, bytes 40 to 43 read most significant first are the 32-bit
  seconds value, and bytes 44 to 47 read the same way are the 32-bit fraction value, the
  truncated quotient of the nanoseconds by 1000. The reply is a function of \<open>now\<close>
  alone.
\<close>

theorem makeNTPResponse_layout:
  "length (makeNTPResponse now) = 48
   \<and> makeNTPResponse now ! 0 = 0x1C
   \<and> take 39 (drop 1 (makeNTPResponse now)) = replicate 39 0
   \<and> be32 (take 4 (drop 40 (makeNTPResponse now))) = seconds now
   \<and> be32 (take 4 (drop 44 (makeNTPResponse now))) = fraction now
   \<and> fraction now = word_of_int (Nanosecond now sdiv 1000)"
  using length_makeNTPResponse [of now] makeNTPResponse_byte0 [of now]
    makeNTPResponse_zeros [of now] makeNTPResponse_seconds [of now]
    makeNTPResponse_fraction [of now]
  by (simp add: fraction_def)

section \<open>The seconds field\<close>

text \<open>The int64 wrap-around of the addition is invisible after the conversion to uint32.\<close>

lemma uint_seconds: "uint (seconds now) = (Unix now + 2208988800) mod 2 ^ 32"
proof -
  define k where "k = Unix now + 2208988800"
  have "take_bit LENGTH(32) (signed_take_bit 63 k) = take_bit LENGTH(32) k"
    by (rule take_bit_signed_take_bit) simp
  then have "(word_of_int (signed_take_bit 63 k) :: 32 word) = word_of_int k"
    by (simp only: word_of_int_eq_iff)
  then have "uint (seconds now) = k mod 2 ^ 32"
    unfolding seconds_def int64_def k_def [symmetric]
    by (simp only: uint_word_of_int) simp
  then show ?thesis by (simp only: k_def)
qed

text \<open>
  C3, as the claim states it: the seconds field equals the Unix seconds plus 2208988800
  for every build instant. It fails from 2036-02-07 06:28:16 UTC on, the first instant
  whose sum does not fit 32 bits: there the field reads 0.
\<close>

theorem seconds_field_counterexample:
  "uint (be32 (take 4 (drop 40 (makeNTPResponse \<lparr>Unix = 2085978496, Nanosecond = 0\<rparr>))))
     \<noteq> 2085978496 + 2208988800"
  by (simp add: makeNTPResponse_seconds uint_seconds)

text \<open>
  C3, amended. For every build instant the seconds field equals the Unix seconds plus
  2208988800 reduced modulo 2^32; it equals the sum itself for every instant from
  1900-01-01 up to and excluding 2036-02-07 06:28:16 UTC, that is whenever
  -2208988800 \<open>\<le>\<close> Unix seconds < 2085978496.
\<close>

theorem seconds_field_mod:
  "uint (be32 (take 4 (drop 40 (makeNTPResponse now)))) = (Unix now + 2208988800) mod 2 ^ 32
   \<and> (- 2208988800 \<le> Unix now \<and> Unix now < 2085978496 \<longrightarrow>
        uint (be32 (take 4 (drop 40 (makeNTPResponse now)))) = Unix now + 2208988800)"
  by (simp add: makeNTPResponse_seconds uint_seconds)

theorem seconds_field_mod_witness:
  "- 2208988800 \<le> Unix \<lparr>Unix = 1793000000, Nanosecond = 5000\<rparr>
   \<and> Unix \<lparr>Unix = 1793000000, Nanosecond = 5000\<rparr> < 2085978496
   \<and> uint (be32 (take 4 (drop 40 (makeNTPResponse \<lparr>Unix = 1793000000, Nanosecond = 5000\<rparr>))))
       = 4001988800"
  using seconds_field_mod [of "\<lparr>Unix = 1793000000, Nanosecond = 5000\<rparr>"] by simp

section \<open>The fraction field\<close>

lemma uint_fraction:
  assumes "0 \<le> Nanosecond now" "Nanosecond now \<le> 999999999"
  shows "uint (fraction now) = Nanosecond now div 1000"
proof -
  have s: "Nanosecond now sdiv 1000 = Nanosecond now div 1000"
    using assms by (simp add: signed_divide_int_def sgn_if)
  have "Nanosecond now div 1000 < 2 ^ 32" using assms by simp
  moreover have "0 \<le> Nanosecond now div 1000" using assms by simp
  ultimately show ?thesis
    by (simp add: fraction_def s uint_word_of_int)
qed

lemma uint_drop_bit_32: "uint (drop_bit n w) = uint w div 2 ^ n" for w :: "32 word"
proof -
  have "uint (drop_bit n w) = drop_bit n (take_bit LENGTH(32) (uint w))"
    by (rule unsigned_drop_bit_eq)
  also have "take_bit LENGTH(32) (uint w) = uint w"
    using uint_lt2p [of w] by (simp add: take_bit_int_eq_self)
  finally show ?thesis by (simp only: drop_bit_eq_div)
qed

lemma makeNTPResponse_byte44: "makeNTPResponse now ! 44 = ucast (drop_bit 24 (fraction now))"
  by (simp add: makeNTPResponse_def Let_def)

lemma makeNTPResponse_byte45: "makeNTPResponse now ! 45 = ucast (drop_bit 16 (fraction now))"
  by (simp add: makeNTPResponse_def Let_def)

text \<open>
  C10. For every build instant, whose nanosecond part the time package keeps within
  0..999999999, the fraction field is the microsecond count, the nanoseconds divided by
  1000, which is below 1000000; so byte 44 of the reply is 0x00 and byte 45 is at most
  0x0F.
\<close>

theorem fraction_field_bound:
  assumes "0 \<le> Nanosecond now" and "Nanosecond now \<le> 999999999"
  shows "uint (be32 (take 4 (drop 44 (makeNTPResponse now)))) = Nanosecond now div 1000
       \<and> uint (be32 (take 4 (drop 44 (makeNTPResponse now)))) < 1000000
       \<and> makeNTPResponse now ! 44 = 0x00
       \<and> makeNTPResponse now ! 45 \<le> 0x0F"
proof -
  have u: "uint (fraction now) = Nanosecond now div 1000"
    using assms by (rule uint_fraction)
  have lt: "uint (fraction now) < 1000000" using assms u by simp
  have b44: "ucast (drop_bit 24 (fraction now)) = (0 :: byte)"
  proof -
    have "uint (drop_bit 24 (fraction now)) = 0"
      using lt by (simp add: uint_drop_bit_32)
    then have "drop_bit 24 (fraction now) = 0" by (simp add: uint_0_iff)
    then show ?thesis by simp
  qed
  have b45: "ucast (drop_bit 16 (fraction now)) \<le> (0x0F :: byte)"
  proof -
    have "uint (drop_bit 16 (fraction now)) \<le> 15"
      using lt by (simp add: uint_drop_bit_32)
    then have "uint (ucast (drop_bit 16 (fraction now)) :: byte) \<le> 15"
      by (simp add: unsigned_ucast_eq take_bit_eq_mod)
    then show ?thesis by (simp add: word_le_def)
  qed
  show ?thesis
    using u lt b44 b45
    by (simp add: makeNTPResponse_fraction makeNTPResponse_byte44 makeNTPResponse_byte45)
qed

theorem fraction_field_bound_witness:
  "0 \<le> Nanosecond \<lparr>Unix = 1793000000, Nanosecond = 999999999\<rparr>
   \<and> Nanosecond \<lparr>Unix = 1793000000, Nanosecond = 999999999\<rparr> \<le> 999999999
   \<and> uint (be32 (take 4 (drop 44 (makeNTPResponse \<lparr>Unix = 1793000000, Nanosecond = 999999999\<rparr>))))
       = 999999
   \<and> makeNTPResponse \<lparr>Unix = 1793000000, Nanosecond = 999999999\<rparr> ! 44 = 0x00
   \<and> makeNTPResponse \<lparr>Unix = 1793000000, Nanosecond = 999999999\<rparr> ! 45 \<le> 0x0F"
  using fraction_field_bound [of "\<lparr>Unix = 1793000000, Nanosecond = 999999999\<rparr>"] by simp

section \<open>What each operation leaves alone\<close>

lemma log_frame [simp]:
  "arrays (log e s) = arrays s" "cells (log e s) = cells s" "fresh (log e s) = fresh s"
  "bufPool (log e s) = bufPool s" "msgChan (log e s) = msgChan s" "writes (log e s) = writes s"
  "requests (log e s) = requests s" "logs (log e s) = logs s @ [e]"
  by (simp_all add: log_def)

lemma offer_frame [simp]:
  "arrays (offer m s) = arrays s" "cells (offer m s) = cells s" "fresh (offer m s) = fresh s"
  "bufPool (offer m s) = bufPool s" "writes (offer m s) = writes s"
  "requests (offer m s) = requests s"
  by (simp_all add: offer_def)

lemma Put_frame [simp]:
  "arrays (Put x s) = arrays s" "cells (Put x s) = cells s" "fresh (Put x s) = fresh s"
  "bufPool (Put x s) = bufPool s @ [x]" "msgChan (Put x s) = msgChan s"
  "writes (Put x s) = writes s" "requests (Put x s) = requests s" "logs (Put x s) = logs s"
  by (simp_all add: Put_def)

lemma store_frame [simp]:
  "cells (store a d s) = cells s" "fresh (store a d s) = fresh s"
  "bufPool (store a d s) = bufPool s" "msgChan (store a d s) = msgChan s"
  "writes (store a d s) = writes s" "requests (store a d s) = requests s"
  "logs (store a d s) = logs s"
  by (simp_all add: store_def)

lemma new_cell_frame [simp]:
  "arrays (snd (new_cell a s)) = arrays s"
  "bufPool (snd (new_cell a s)) = bufPool s" "msgChan (snd (new_cell a s)) = msgChan s"
  "writes (snd (new_cell a s)) = writes s" "requests (snd (new_cell a s)) = requests s"
  "logs (snd (new_cell a s)) = logs s"
  "fst (new_cell a s) = fresh s" "fresh (snd (new_cell a s)) = Suc (fresh s)"
  "cells (snd (new_cell a s)) = (cells s)(fresh s := a)"
  by (simp_all add: new_cell_def)

lemma Get_v1_frame [simp]:
  "msgChan (snd (Get New_v1 pk s)) = msgChan s"
  "writes (snd (Get New_v1 pk s)) = writes s" "requests (snd (Get New_v1 pk s)) = requests s"
  "logs (snd (Get New_v1 pk s)) = logs s" "cells (snd (Get New_v1 pk s)) = cells s"
  by (simp_all add: Get_def New_v1_def split: option.splits)

lemma Get_v3_frame [simp]:
  "msgChan (snd (Get New_v3 pk s)) = msgChan s"
  "writes (snd (Get New_v3 pk s)) = writes s" "requests (snd (Get New_v3 pk s)) = requests s"
  "logs (snd (Get New_v3 pk s)) = logs s"
  by (simp_all add: Get_def New_v3_def split: option.splits)

lemma reply_frame [simp]:
  "arrays (reply inp r a s) = arrays s" "cells (reply inp r a s) = cells s"
  "fresh (reply inp r a s) = fresh s" "bufPool (reply inp r a s) = bufPool s"
  "msgChan (reply inp r a s) = msgChan s" "requests (reply inp r a s) = requests s"
  "writes (reply inp r a s) = writes s @ [(r, a)]"
  by (simp_all add: reply_def Let_def split: option.splits)

lemma serve_v3_frame [simp]:
  "arrays (serve_v3 Decode inp a s) = arrays s" "cells (serve_v3 Decode inp a s) = cells s"
  "fresh (serve_v3 Decode inp a s) = fresh s" "bufPool (serve_v3 Decode inp a s) = bufPool s"
  "requests (serve_v3 Decode inp a s) = requests s"
  "writes (serve_v3 Decode inp a s) = writes s @ [(makeNTPResponse (clock inp), a)]"
  by (simp_all add: serve_v3_def Let_def split: sum.splits)

lemma deliver_frame [simp]:
  "arrays (deliver inp u s) = arrays s" "cells (deliver inp u s) = cells s"
  "fresh (deliver inp u s) = fresh s" "bufPool (deliver inp u s) = bufPool s"
  "msgChan (deliver inp u s) = msgChan s" "writes (deliver inp u s) = writes s"
  "requests (deliver inp u s) = requests s @ [u]"
  by (simp_all add: deliver_def Let_def split: sum.splits)

lemma processTelegramMessages_v1_frame [simp]:
  "arrays (snd (processTelegramMessages_v1 token chatID inp s)) = arrays s"
  "cells (snd (processTelegramMessages_v1 token chatID inp s)) = cells s"
  "fresh (snd (processTelegramMessages_v1 token chatID inp s)) = fresh s"
  "bufPool (snd (processTelegramMessages_v1 token chatID inp s)) = bufPool s"
  "writes (snd (processTelegramMessages_v1 token chatID inp s)) = writes s"
  by (simp_all add: processTelegramMessages_v1_def Let_def split: fired.splits list.splits)

lemma processTelegramMessages_v3_frame [simp]:
  "arrays (snd (processTelegramMessages_v3 token chatID inp s)) = arrays s"
  "cells (snd (processTelegramMessages_v3 token chatID inp s)) = cells s"
  "fresh (snd (processTelegramMessages_v3 token chatID inp s)) = fresh s"
  "bufPool (snd (processTelegramMessages_v3 token chatID inp s)) = bufPool s"
  "writes (snd (processTelegramMessages_v3 token chatID inp s)) = writes s"
  by (simp_all add: processTelegramMessages_v3_def Let_def split: fired.splits list.splits)

text \<open>A read of 48 bytes overwrites the whole buffer.\<close>

lemma store_48: "length d = 48 \<Longrightarrow> arrays (store a d s) a = d"
  by (simp add: store_def)

section \<open>Schedules\<close>

lemma run_Nil [simp]: "run L D [] p = p"
  by (simp add: run_def)

lemma run_Cons [simp]: "run L D (e # es) p = run L D es (step L D e p)"
  by (simp add: run_def)

text \<open>What both loops preserve, every schedule preserves.\<close>

lemma step_invariant:
  assumes L: "\<And>inp s. P s \<Longrightarrow> P (snd (L inp s))"
    and D: "\<And>inp s. P s \<Longrightarrow> P (snd (D inp s))"
    and p: "P (state p)"
  shows "P (state (step L D e p))"
proof (cases e)
  case (Listener inp)
  then show ?thesis using L [OF p, of inp] p by (simp add: step_def split_beta)
next
  case (Dispatcher inp)
  then show ?thesis using D [OF p, of inp] p by (simp add: step_def split_beta)
qed

lemma run_invariant:
  assumes L: "\<And>inp s. P s \<Longrightarrow> P (snd (L inp s))"
    and D: "\<And>inp s. P s \<Longrightarrow> P (snd (D inp s))"
  shows "P (state p) \<Longrightarrow> P (state (run L D es p))"
proof (induction es arbitrary: p)
  case Nil
  then show ?case by simp
next
  case (Cons e es)
  have "P (state (step L D e p))"
    using L D Cons.prems by (rule step_invariant)
  then show ?case using Cons.IH by simp
qed

section \<open>The queue stays within its capacity\<close>

lemma length_offer:
  "length (msgChan s) \<le> capacity \<Longrightarrow> length (msgChan (offer m s)) \<le> capacity"
  by (simp add: offer_def)

lemma serve_v3_bounded:
  "length (msgChan s) \<le> capacity \<Longrightarrow> length (msgChan (serve_v3 Decode inp a s)) \<le> capacity"
  by (simp add: serve_v3_def Let_def length_offer split: sum.splits)

lemma startNTPServer_v1_bounded:
  "length (msgChan s) \<le> capacity \<Longrightarrow>
   length (msgChan (snd (startNTPServer_v1 inp s))) \<le> capacity"
  by (simp add: startNTPServer_v1_def Let_def split_beta length_offer split: sum.splits)

lemma startNTPServer_v3_bounded:
  "length (msgChan s) \<le> capacity \<Longrightarrow>
   length (msgChan (snd (startNTPServer_v3 Decode inp s))) \<le> capacity"
  by (simp add: startNTPServer_v3_def Let_def split_beta serve_v3_bounded split: sum.splits)

lemma processTelegramMessages_v1_bounded:
  "length (msgChan s) \<le> capacity \<Longrightarrow>
   length (msgChan (snd (processTelegramMessages_v1 token chatID inp s))) \<le> capacity"
  by (auto simp: processTelegramMessages_v1_def Let_def split: fired.splits list.splits)

lemma processTelegramMessages_v3_bounded:
  "length (msgChan s) \<le> capacity \<Longrightarrow>
   length (msgChan (snd (processTelegramMessages_v3 token chatID inp s))) \<le> capacity"
  by (auto simp: processTelegramMessages_v3_def Let_def split: fired.splits list.splits)

lemma run_v1_bounded: "length (msgChan (state (run_v1 token chatID es start))) \<le> capacity"
  unfolding run_v1_def
  by (rule run_invariant [where P = "\<lambda>s. length (msgChan s) \<le> capacity"])
    (simp_all add: startNTPServer_v1_bounded processTelegramMessages_v1_bounded
      start_def init_def)

lemma run_v3_bounded:
  "length (msgChan (state (run_v3 Decode token chatID es start))) \<le> capacity"
  unfolding run_v3_def
  by (rule run_invariant [where P = "\<lambda>s. length (msgChan s) \<le> capacity"])
    (simp_all add: startNTPServer_v3_bounded processTelegramMessages_v3_bounded
      start_def init_def)

text \<open>Offers in a row, with nothing taken out in between.\<close>

lemma offers_msgChan:
  "length (msgChan s) \<le> capacity \<Longrightarrow>
   msgChan (foldl (\<lambda>s m. offer m s) s msgs) = take capacity (msgChan s @ msgs)"
proof (induction msgs arbitrary: s)
  case Nil
  then show ?case by simp
next
  case (Cons m msgs)
  have le: "length (msgChan (offer m s)) \<le> capacity"
    using Cons.prems by (rule length_offer)
  show ?case
  proof (cases "length (msgChan s) < capacity")
    case True
    then show ?thesis using Cons.IH [OF le] by (simp add: offer_def)
  next
    case False
    then have "length (msgChan s) = capacity" using Cons.prems by simp
    then show ?thesis using Cons.IH [OF le] by (simp add: offer_def)
  qed
qed

lemma offers_logs:
  "length (msgChan s) \<le> capacity \<Longrightarrow>
   logs (foldl (\<lambda>s m. offer m s) s msgs) =
     logs s @ replicate (length (msgChan s) + length msgs - capacity) Warn_Queue_Full"
proof (induction msgs arbitrary: s)
  case Nil
  then show ?case by simp
next
  case (Cons m msgs)
  have le: "length (msgChan (offer m s)) \<le> capacity"
    using Cons.prems by (rule length_offer)
  show ?case
  proof (cases "length (msgChan s) < capacity")
    case True
    then show ?thesis using Cons.IH [OF le] by (simp add: offer_def)
  next
    case False
    then have eq: "length (msgChan s) = capacity" using Cons.prems by simp
    then have "length (msgChan s) + length (m # msgs) - capacity = Suc (length msgs)" by simp
    then show ?thesis using Cons.IH [OF le] eq
      by (simp add: offer_def replicate_app_Cons_same)
  qed
qed

text \<open>
  C4. The capacity of the queue is 100. Under every schedule of the two loops, from the
  start of the program, the queue holds at most 100 messages. An offer is one step of
  the listener's iteration that always completes; made on a full queue it leaves the
  queue as it was and only logs a warning. So offering any messages to an empty queue,
  with nothing taken out in between, enqueues the first 100 of them and drops the rest,
  one warning for each.
\<close>

theorem msgChan_bounded_drop_on_full:
  "capacity = 100
   \<and> length (msgChan (state (run_v1 token chatID es start))) \<le> capacity
   \<and> length (msgChan (state (run_v3 Decode token chatID es start))) \<le> capacity
   \<and> (length (msgChan s) = capacity \<longrightarrow>
        offer msg s = log Warn_Queue_Full s \<and> msgChan (offer msg s) = msgChan s)
   \<and> (msgChan s = [] \<longrightarrow>
        msgChan (foldl (\<lambda>s m. offer m s) s msgs) = take capacity msgs
        \<and> logs (foldl (\<lambda>s m. offer m s) s msgs)
            = logs s @ replicate (length msgs - capacity) Warn_Queue_Full)"
proof -
  have "msgChan s = [] \<Longrightarrow> msgChan (foldl (\<lambda>s m. offer m s) s msgs) = take capacity msgs"
    using offers_msgChan [of s msgs] by simp
  moreover have "msgChan s = [] \<Longrightarrow>
      logs (foldl (\<lambda>s m. offer m s) s msgs)
        = logs s @ replicate (length msgs - capacity) Warn_Queue_Full"
    using offers_logs [of s msgs] by simp
  moreover have "length (msgChan s) = capacity \<Longrightarrow> offer msg s = log Warn_Queue_Full s"
    by (simp add: offer_def)
  ultimately show ?thesis
    using run_v1_bounded [of token chatID es] run_v3_bounded [of Decode token chatID es]
    by (simp add: capacity_def)
qed

theorem msgChan_bounded_drop_on_full_witness:
  "length (msgChan (init\<lparr>msgChan := replicate 100 ''queued''\<rparr>)) = capacity
   \<and> msgChan (offer ''late'' (init\<lparr>msgChan := replicate 100 ''queued''\<rparr>)) = replicate 100 ''queued''
   \<and> msgChan init = []
   \<and> msgChan (foldl (\<lambda>s m. offer m s) init (replicate 100 ''early'' @ [''late'', ''later'']))
       = replicate 100 ''early''
   \<and> logs (foldl (\<lambda>s m. offer m s) init (replicate 100 ''early'' @ [''late'', ''later'']))
       = [Warn_Queue_Full, Warn_Queue_Full]"
  using msgChan_bounded_drop_on_full
      [of "[]" "[]" "[]" undecodable "init\<lparr>msgChan := replicate 100 ''queued''\<rparr>" "''late''" "[]"]
    msgChan_bounded_drop_on_full
      [of "[]" "[]" "[]" undecodable init "[]" "replicate 100 ''early'' @ [''late'', ''later'']"]
  by (simp add: init_def capacity_def numeral_eq_Suc)

section \<open>Which datagrams the listener answers\<close>

lemma msgChan_offer:
  "msgChan (offer m s) = (if length (msgChan s) < capacity then msgChan s @ [m] else msgChan s)"
  by (simp add: offer_def)

lemma startNTPServer_v1_writes:
  "writes (snd (startNTPServer_v1 inp s)) =
    (case ReadFromUDP inp of
       Inl err \<Rightarrow> writes s
     | Inr (data, clientAddr) \<Rightarrow>
         if \<not> ctx_Done inp \<and> length data > 0
         then writes s @ [(makeNTPResponse (clock inp), clientAddr)] else writes s)"
  by (simp add: startNTPServer_v1_def Let_def split_beta split: sum.splits)

lemma startNTPServer_v1_msgChan:
  "msgChan (snd (startNTPServer_v1 inp s)) =
    (case ReadFromUDP inp of
       Inl err \<Rightarrow> msgChan s
     | Inr (data, clientAddr) \<Rightarrow>
         if \<not> ctx_Done inp \<and> length (msgChan s) < capacity
         then msgChan s @ [alert_v1 (addr_String clientAddr)] else msgChan s)"
  by (simp add: startNTPServer_v1_def Let_def split_beta msgChan_offer split: sum.splits)

lemma startNTPServer_v3_writes:
  "writes (snd (startNTPServer_v3 Decode inp s)) =
    (case ReadFromUDP inp of
       Inl err \<Rightarrow> writes s
     | Inr (data, clientAddr) \<Rightarrow>
         if \<not> ctx_Done inp \<and> length data = 48 \<and> (data ! 0) AND 0x07 = 3
         then writes s @ [(makeNTPResponse (clock inp), clientAddr)] else writes s)"
  by (simp add: startNTPServer_v3_def Let_def split_beta store_48 split: sum.splits)

text \<open>
  The listener of part_001 does what C1 says: an iteration hands a reply to the socket
  exactly when it is not cancelled and the read reports 48 bytes with mode 3, and on
  every other iteration the queue is as before.
\<close>

lemma startNTPServer_v3_replies_iff:
  "writes (snd (startNTPServer_v3 Decode inp s)) \<noteq> writes s \<longleftrightarrow>
     \<not> ctx_Done inp \<and>
     (\<exists>data clientAddr. ReadFromUDP inp = Inr (data, clientAddr) \<and> length data = 48 \<and>
        (data ! 0) AND 0x07 = 3)"
  by (auto simp: startNTPServer_v3_writes split: sum.splits)

lemma startNTPServer_v3_discards:
  assumes "\<not> (\<exists>data clientAddr. ReadFromUDP inp = Inr (data, clientAddr) \<and> length data = 48 \<and>
              (data ! 0) AND 0x07 = 3)"
  shows "writes (snd (startNTPServer_v3 Decode inp s)) = writes s
       \<and> msgChan (snd (startNTPServer_v3 Decode inp s)) = msgChan s"
  using assms
  by (auto simp: startNTPServer_v3_def Let_def split_beta store_48 split: sum.splits)

text \<open>
  C1 at a failing input. The claim: a reply is sent exactly for a datagram of 48 bytes
  with mode 3, and for any other datagram no reply is sent and no alert is enqueued.
  The listener of src/main.go tests \<open>n > 0\<close> only: reading a datagram of 10 bytes, and
  reading one of 48 bytes whose mode is 4, it hands a reply to the socket and enqueues
  an alert.
\<close>

theorem startNTPServer_v1_answers_malformed:
  "writes (snd (startNTPServer_v1 (datagram (replicate 10 0)) init))
     = [(makeNTPResponse reading, client)]
   \<and> msgChan (snd (startNTPServer_v1 (datagram (replicate 10 0)) init))
       = [alert_v1 ''192.0.2.7:123'']
   \<and> (0x1C :: byte) AND 0x07 = 4
   \<and> writes (snd (startNTPServer_v1 (datagram (0x1C # replicate 47 0)) init))
       = [(makeNTPResponse reading, client)]
   \<and> msgChan (snd (startNTPServer_v1 (datagram (0x1C # replicate 47 0)) init))
       = [alert_v1 ''192.0.2.7:123'']"
  by (simp add: startNTPServer_v1_writes startNTPServer_v1_msgChan datagram_def client_def
      init_def capacity_def)

text \<open>
  C5. For every request the read reports as 48 bytes with mode 3, the iteration hands
  to the socket, for the requester's address, a reply of 48 bytes whose byte 0 is 0x1C,
  whatever the lookup returns, however full the queue is and whatever the send itself
  returns. This holds in part_001 and in main.go.
\<close>

theorem well_formed_request_answered:
  assumes "\<not> ctx_Done inp"
    and "ReadFromUDP inp = Inr (data, clientAddr)"
    and "length data = 48"
    and "(data ! 0) AND 0x07 = 3"
  shows "writes (snd (startNTPServer_v3 Decode inp s))
           = writes s @ [(makeNTPResponse (clock inp), clientAddr)]
       \<and> writes (snd (startNTPServer_v1 inp s))
           = writes s @ [(makeNTPResponse (clock inp), clientAddr)]
       \<and> length (makeNTPResponse (clock inp)) = 48
       \<and> makeNTPResponse (clock inp) ! 0 = 0x1C"
  using assms
  by (auto simp: startNTPServer_v3_writes startNTPServer_v1_writes length_makeNTPResponse
      makeNTPResponse_byte0)

theorem well_formed_request_answered_witness:
  "\<not> ctx_Done (datagram (0x1B # replicate 47 0))
   \<and> ReadFromUDP (datagram (0x1B # replicate 47 0)) = Inr (0x1B # replicate 47 0, client)
   \<and> length (0x1B # replicate 47 (0 :: byte)) = 48
   \<and> ((0x1B # replicate 47 0) ! 0) AND (0x07 :: byte) = 3
   \<and> isl (getGeoIP (http_Get (datagram (0x1B # replicate 47 0))) undecodable (IP_String client))
   \<and> length (msgChan (init\<lparr>msgChan := replicate 100 ''queued''\<rparr>)) = capacity
   \<and> writes (snd (startNTPServer_v3 undecodable (datagram (0x1B # replicate 47 0))
                (init\<lparr>msgChan := replicate 100 ''queued''\<rparr>)))
       = [(makeNTPResponse reading, client)]
   \<and> writes (snd (startNTPServer_v1 (datagram (0x1B # replicate 47 0))
                (init\<lparr>msgChan := replicate 100 ''queued''\<rparr>)))
       = [(makeNTPResponse reading, client)]"
  using well_formed_request_answered
      [of "datagram (0x1B # replicate 47 0)" "0x1B # replicate 47 0" client undecodable
          "init\<lparr>msgChan := replicate 100 ''queued''\<rparr>"]
  by (simp add: datagram_def init_def capacity_def getGeoIP_def unreachable_def)

section \<open>The lookup and its fallback\<close>




section \<open>What the dispatcher puts into the URL\<close>

lemma unreserved_upperhex: "n < 16 \<Longrightarrow> unreserved (upperhex n)"
proof -
  have "\<forall>k \<in> {..<16}. unreserved (upperhex k)"
    by (simp add: lessThan_nat_numeral lessThan_Suc upperhex_def unreserved_def less_eq_char_def)
  then show "n < 16 \<Longrightarrow> unreserved (upperhex n)" by simp
qed

lemma escape_byte_chars:
  "x \<in> set (escape_byte c) \<Longrightarrow> unreserved x \<or> x = CHR ''+'' \<or> x = CHR ''%''"
proof -
  assume x: "x \<in> set (escape_byte c)"
  have "(of_char c :: nat) div 16 < 16"
    by (rule less_mult_imp_div_less) simp
  moreover have "(of_char c :: nat) mod 16 < 16" by simp
  ultimately show ?thesis
    using x unreserved_upperhex by (auto simp: escape_byte_def split: if_splits)
qed

lemma QueryEscape_chars:
  "x \<in> set (QueryEscape s) \<Longrightarrow> unreserved x \<or> x = CHR ''+'' \<or> x = CHR ''%''"
  by (auto simp: QueryEscape_def dest: escape_byte_chars)

text \<open>
  The dispatcher of part_001 does what C7 says: the text it puts into the URL is the
  escaped message, in which none of the characters that structure a URL occurs.
\<close>

lemma processTelegramMessages_v3_requests:
  "fired inp = Msg_Received \<Longrightarrow> msgChan s = msg # rest \<Longrightarrow>
   requests (snd (processTelegramMessages_v3 token chatID inp s)) =
     requests s @ [''https://api.telegram.org/bot'' @ token @ ''/sendMessage?chat_id='' @ chatID @
                   ''&text='' @ QueryEscape msg]"
  by (simp add: processTelegramMessages_v3_def Let_def)

lemma QueryEscape_no_delimiter: "set (QueryEscape s) \<inter> set ''&=#?/ '' = {}"
proof -
  have "\<not> (unreserved x \<or> x = CHR ''+'' \<or> x = CHR ''%'')" if "x \<in> set ''&=#?/ ''" for x
    using that by (auto simp: unreserved_def less_eq_char_def)
  then show ?thesis using QueryEscape_chars by blast
qed

lemma processTelegramMessages_v1_requests:
  "fired inp = Msg_Received \<Longrightarrow> msgChan s = msg # rest \<Longrightarrow>
   requests (snd (processTelegramMessages_v1 token chatID inp s)) =
     requests s @ [''https://api.telegram.org/bot'' @ token @ ''/sendMessage?chat_id='' @ chatID @
                   ''&text='' @ msg]"
  by (simp add: processTelegramMessages_v1_def Let_def)

text \<open>
  C7 at a failing input. The claim: the dispatcher percent-encodes the text of every
  message it pulls from the queue before it puts the text into the URL. The dispatcher
  of src/main.go puts the text in as it is: pulling the alert its own listener enqueues
  for the requester 192.0.2.7:123, it requests a URL that ends in that alert, spaces and
  colons included, and not in its escaped form.
\<close>

theorem processTelegramMessages_v1_sends_raw_text:
  "requests (snd (processTelegramMessages_v1 ''TOKEN'' ''42''
               \<lparr>fired = Msg_Received, tg_Get = unreachable\<rparr>
               (init\<lparr>msgChan := [alert_v1 ''192.0.2.7:123'']\<rparr>)))
     = [''https://api.telegram.org/botTOKEN/sendMessage?chat_id=42&text='' @
        alert_v1 ''192.0.2.7:123'']
   \<and> CHR '' '' \<in> set (alert_v1 ''192.0.2.7:123'')
   \<and> CHR '':'' \<in> set (alert_v1 ''192.0.2.7:123'')
   \<and> alert_v1 ''192.0.2.7:123'' \<noteq> QueryEscape (alert_v1 ''192.0.2.7:123'')"
proof -
  have sp: "CHR '' '' \<in> set (alert_v1 ''192.0.2.7:123'')"
    by (simp add: alert_v1_def sync_text_def)
  have "CHR '' '' \<notin> set (QueryEscape (alert_v1 ''192.0.2.7:123''))"
    using QueryEscape_no_delimiter [of "alert_v1 ''192.0.2.7:123''"] by auto
  with sp have ne: "alert_v1 ''192.0.2.7:123'' \<noteq> QueryEscape (alert_v1 ''192.0.2.7:123'')"
    by metis
  have co: "CHR '':'' \<in> set (alert_v1 ''192.0.2.7:123'')"
    by (simp add: alert_v1_def sync_text_def)
  have "requests (snd (processTelegramMessages_v1 ''TOKEN'' ''42''
               \<lparr>fired = Msg_Received, tg_Get = unreachable\<rparr>
               (init\<lparr>msgChan := [alert_v1 ''192.0.2.7:123'']\<rparr>)))
     = [''https://api.telegram.org/botTOKEN/sendMessage?chat_id=42&text='' @
        alert_v1 ''192.0.2.7:123'']"
    by (simp add: processTelegramMessages_v1_requests [where rest = "[]"] init_def)
  then show ?thesis using sp co ne by simp
qed

section \<open>When the loops return\<close>

lemma startNTPServer_v1_status:
  "fst (startNTPServer_v1 inp s) = (if ctx_Done inp then Returned else Running)"
  by (simp add: startNTPServer_v1_def Let_def split_beta split: sum.splits)

lemma startNTPServer_v3_status:
  "fst (startNTPServer_v3 Decode inp s) = (if ctx_Done inp then Returned else Running)"
  by (simp add: startNTPServer_v3_def Let_def split_beta split: sum.splits)

lemma processTelegramMessages_v1_status:
  "fst (processTelegramMessages_v1 token chatID inp s) =
     (if fired inp = Ctx_Done then Returned else Running)"
  by (simp add: processTelegramMessages_v1_def Let_def split: fired.splits list.splits)

lemma processTelegramMessages_v3_status:
  "fst (processTelegramMessages_v3 token chatID inp s) =
     (if fired inp = Ctx_Done then Returned else Running)"
  by (simp add: processTelegramMessages_v3_def Let_def split: fired.splits list.splits)

lemma run_listener:
  assumes L: "\<And>inp s. fst (L inp s) = (if ctx_Done inp then Returned else Running)"
  shows "listener (run L D es p) = Returned \<longleftrightarrow>
         listener p = Returned \<or> (\<exists>inp. Listener inp \<in> set es \<and> ctx_Done inp)"
proof (induction es arbitrary: p)
  case Nil
  then show ?case by simp
next
  case (Cons e es)
  have "listener (step L D e p) = Returned \<longleftrightarrow>
        listener p = Returned \<or> (\<exists>inp. e = Listener inp \<and> ctx_Done inp)"
  proof (cases e)
    case (Listener inp)
    then show ?thesis
      using L [of inp "state p"] by (cases "listener p") (auto simp: step_def split_beta)
  next
    case (Dispatcher inp)
    then show ?thesis by (simp add: step_def split_beta)
  qed
  then show ?case using Cons.IH [of "step L D e p"] by auto
qed

lemma run_dispatcher:
  assumes D: "\<And>inp s. fst (D inp s) = (if fired inp = Ctx_Done then Returned else Running)"
  shows "dispatcher (run L D es p) = Returned \<longleftrightarrow>
         dispatcher p = Returned \<or> (\<exists>inp. Dispatcher inp \<in> set es \<and> fired inp = Ctx_Done)"
proof (induction es arbitrary: p)
  case Nil
  then show ?case by simp
next
  case (Cons e es)
  have "dispatcher (step L D e p) = Returned \<longleftrightarrow>
        dispatcher p = Returned \<or> (\<exists>inp. e = Dispatcher inp \<and> fired inp = Ctx_Done)"
  proof (cases e)
    case (Listener inp)
    then show ?thesis by (simp add: step_def split_beta)
  next
    case (Dispatcher inp)
    then show ?thesis
      using D [of inp "state p"] by (cases "dispatcher p") (auto simp: step_def split_beta)
  qed
  then show ?case using Cons.IH [of "step L D e p"] by auto
qed

text \<open>
  C8. An iteration of the listener ends the loop exactly when it finds the cancellation
  signal ready, whatever the read, the send, the lookup and the queue do; an iteration
  of the dispatcher ends the loop exactly when the cancellation case of its \<open>select\<close>
  fires, whatever the delivery returns. So under every schedule from the start of the
  program, each loop has returned exactly when one of its own iterations has observed
  the cancellation.
\<close>

theorem loops_return_only_on_cancellation:
  "fst (startNTPServer_v1 inp s) = (if ctx_Done inp then Returned else Running)
   \<and> fst (startNTPServer_v3 Decode inp s) = (if ctx_Done inp then Returned else Running)
   \<and> fst (processTelegramMessages_v1 token chatID dinp s)
       = (if fired dinp = Ctx_Done then Returned else Running)
   \<and> fst (processTelegramMessages_v3 token chatID dinp s)
       = (if fired dinp = Ctx_Done then Returned else Running)
   \<and> (listener (run_v1 token chatID es start) = Returned
        \<longleftrightarrow> (\<exists>i. Listener i \<in> set es \<and> ctx_Done i))
   \<and> (dispatcher (run_v1 token chatID es start) = Returned
        \<longleftrightarrow> (\<exists>i. Dispatcher i \<in> set es \<and> fired i = Ctx_Done))
   \<and> (listener (run_v3 Decode token chatID es start) = Returned
        \<longleftrightarrow> (\<exists>i. Listener i \<in> set es \<and> ctx_Done i))
   \<and> (dispatcher (run_v3 Decode token chatID es start) = Returned
        \<longleftrightarrow> (\<exists>i. Dispatcher i \<in> set es \<and> fired i = Ctx_Done))"
proof -
  have "listener (run_v1 token chatID es start) = Returned
        \<longleftrightarrow> (\<exists>i. Listener i \<in> set es \<and> ctx_Done i)"
    unfolding run_v1_def
    by (subst run_listener) (simp_all add: startNTPServer_v1_status start_def)
  moreover have "dispatcher (run_v1 token chatID es start) = Returned
        \<longleftrightarrow> (\<exists>i. Dispatcher i \<in> set es \<and> fired i = Ctx_Done)"
    unfolding run_v1_def
    by (subst run_dispatcher) (simp_all add: processTelegramMessages_v1_status start_def)
  moreover have "listener (run_v3 Decode token chatID es start) = Returned
        \<longleftrightarrow> (\<exists>i. Listener i \<in> set es \<and> ctx_Done i)"
    unfolding run_v3_def
    by (subst run_listener) (simp_all add: startNTPServer_v3_status start_def)
  moreover have "dispatcher (run_v3 Decode token chatID es start) = Returned
        \<longleftrightarrow> (\<exists>i. Dispatcher i \<in> set es \<and> fired i = Ctx_Done)"
    unfolding run_v3_def
    by (subst run_dispatcher) (simp_all add: processTelegramMessages_v3_status start_def)
  ultimately show ?thesis
    by (simp only: startNTPServer_v1_status startNTPServer_v3_status
        processTelegramMessages_v1_status processTelegramMessages_v3_status simp_thms)
qed

theorem loops_return_only_on_cancellation_witness:
  "listener (run_v3 undecodable ''TOKEN'' ''42''
      [Listener ((datagram []) \<lparr>ReadFromUDP := Inl (Error ''read failed'')\<rparr>),
       Listener (datagram (replicate 10 0)),
       Listener ((datagram (0x1B # replicate 47 0)) \<lparr>WriteToUDP := Some (Error ''send failed'')\<rparr>),
       Dispatcher \<lparr>fired = Msg_Received, tg_Get = unreachable\<rparr>] start) \<noteq> Returned
   \<and> dispatcher (run_v3 undecodable ''TOKEN'' ''42''
      [Listener ((datagram []) \<lparr>ReadFromUDP := Inl (Error ''read failed'')\<rparr>),
       Listener (datagram (replicate 10 0)),
       Listener ((datagram (0x1B # replicate 47 0)) \<lparr>WriteToUDP := Some (Error ''send failed'')\<rparr>),
       Dispatcher \<lparr>fired = Msg_Received, tg_Get = unreachable\<rparr>] start) \<noteq> Returned
   \<and> listener (run_v1 ''TOKEN'' ''42''
      [Listener (datagram (replicate 10 0)),
       Listener ((datagram []) \<lparr>ctx_Done := True\<rparr>),
       Dispatcher \<lparr>fired = Ctx_Done, tg_Get = unreachable\<rparr>] start) = Returned
   \<and> dispatcher (run_v1 ''TOKEN'' ''42''
      [Listener (datagram (replicate 10 0)),
       Listener ((datagram []) \<lparr>ctx_Done := True\<rparr>),
       Dispatcher \<lparr>fired = Ctx_Done, tg_Get = unreachable\<rparr>] start) = Returned"
proof -
  let ?quiet = "[Listener ((datagram []) \<lparr>ReadFromUDP := Inl (Error ''read failed'')\<rparr>),
       Listener (datagram (replicate 10 0)),
       Listener ((datagram (0x1B # replicate 47 0)) \<lparr>WriteToUDP := Some (Error ''send failed'')\<rparr>),
       Dispatcher \<lparr>fired = Msg_Received, tg_Get = unreachable\<rparr>]"
  let ?stop = "[Listener (datagram (replicate 10 0)),
       Listener ((datagram []) \<lparr>ctx_Done := True\<rparr>),
       Dispatcher \<lparr>fired = Ctx_Done, tg_Get = unreachable\<rparr>]"
  have q1: "\<not> (\<exists>i. Listener i \<in> set ?quiet \<and> ctx_Done i)"
    by (auto simp: datagram_def)
  have q2: "\<not> (\<exists>i. Dispatcher i \<in> set ?quiet \<and> fired i = Ctx_Done)"
    by auto
  have s1: "\<exists>i. Listener i \<in> set ?stop \<and> ctx_Done i"
    by (rule exI [of _ "(datagram []) \<lparr>ctx_Done := True\<rparr>"]) simp
  have s2: "\<exists>i. Dispatcher i \<in> set ?stop \<and> fired i = Ctx_Done"
    by (rule exI [of _ "\<lparr>fired = Ctx_Done, tg_Get = unreachable\<rparr>"]) simp
  show ?thesis
    using loops_return_only_on_cancellation
      [of "datagram []" init undecodable "''TOKEN''" "''42''"
          "\<lparr>fired = Msg_Received, tg_Get = unreachable\<rparr>" ?quiet]
      loops_return_only_on_cancellation
      [of "datagram []" init undecodable "''TOKEN''" "''42''"
          "\<lparr>fired = Msg_Received, tg_Get = unreachable\<rparr>" ?stop]
      q1 q2 s1 s2
    by blast
qed

section \<open>The buffer pool\<close>

lemma distinct_remove_nth:
  assumes "distinct xs" and "i < length xs"
  shows "distinct (take i xs @ drop (Suc i) xs) \<and> xs ! i \<notin> set (take i xs @ drop (Suc i) xs)"
proof -
  have "xs = take i xs @ xs ! i # drop (Suc i) xs"
    using assms(2) by (rule id_take_nth_drop)
  then have "distinct (take i xs @ xs ! i # drop (Suc i) xs)" using assms(1) by simp
  then show ?thesis by auto
qed

lemma set_remove_nth: "set (take i xs @ drop (Suc i) xs) \<subseteq> set xs"
  using set_take_subset [of i xs] set_drop_subset [of "Suc i" xs] by auto

lemma Get_v1_pool:
  assumes "pool_ok_v1 s"
  shows "fst (Get New_v1 pk s) \<notin> set (bufPool (snd (Get New_v1 pk s)))"
    and "distinct (bufPool (snd (Get New_v1 pk s)))"
    and "\<forall>a \<in> set (bufPool (snd (Get New_v1 pk s))). a < fresh (snd (Get New_v1 pk s))"
    and "fst (Get New_v1 pk s) < fresh (snd (Get New_v1 pk s))"
proof -
  have d: "distinct (bufPool s)" and b: "\<forall>a \<in> set (bufPool s). a < fresh s"
    using assms by (simp_all add: pool_ok_v1_def storage_v1_def)
  show "fst (Get New_v1 pk s) \<notin> set (bufPool (snd (Get New_v1 pk s)))"
    using d b distinct_remove_nth [of "bufPool s"]
    by (auto simp: Get_def New_v1_def split: option.splits)
  show "distinct (bufPool (snd (Get New_v1 pk s)))"
    using d distinct_remove_nth [of "bufPool s"]
    by (auto simp: Get_def New_v1_def split: option.splits)
  show "\<forall>a \<in> set (bufPool (snd (Get New_v1 pk s))). a < fresh (snd (Get New_v1 pk s))"
    using b set_remove_nth [of _ "bufPool s"]
    by (auto simp: Get_def New_v1_def less_Suc_eq split: option.splits)
  show "fst (Get New_v1 pk s) < fresh (snd (Get New_v1 pk s))"
    using b by (auto simp: Get_def New_v1_def split: option.splits)
qed

lemma startNTPServer_v1_bufPool:
  "\<not> ctx_Done inp \<Longrightarrow>
   bufPool (snd (startNTPServer_v1 inp s)) =
     bufPool (snd (Get New_v1 (pick inp) s)) @ [fst (Get New_v1 (pick inp) s)]"
  by (simp add: startNTPServer_v1_def Let_def split_beta split: sum.splits)

lemma startNTPServer_v1_fresh:
  "\<not> ctx_Done inp \<Longrightarrow>
   fresh (snd (startNTPServer_v1 inp s)) = fresh (snd (Get New_v1 (pick inp) s))"
  by (simp add: startNTPServer_v1_def Let_def split_beta split: sum.splits)

lemma startNTPServer_v1_pool_ok:
  assumes "pool_ok_v1 s"
  shows "pool_ok_v1 (snd (startNTPServer_v1 inp s))"
proof (cases "ctx_Done inp")
  case True
  then show ?thesis
    using assms by (simp add: startNTPServer_v1_def pool_ok_v1_def storage_v1_def)
next
  case False
  then show ?thesis
    using Get_v1_pool [OF assms, of "pick inp"]
    by (auto simp: pool_ok_v1_def storage_v1_def startNTPServer_v1_bufPool
        startNTPServer_v1_fresh)
qed

lemma Get_v3_pool:
  assumes "pool_ok_v3 s"
  shows "cells (snd (Get New_v3 pk s)) (fst (Get New_v3 pk s))
           \<notin> cells (snd (Get New_v3 pk s)) ` set (bufPool (snd (Get New_v3 pk s)))"
    and "distinct (map (cells (snd (Get New_v3 pk s))) (bufPool (snd (Get New_v3 pk s))))"
    and "\<forall>p \<in> set (bufPool (snd (Get New_v3 pk s))).
           p < fresh (snd (Get New_v3 pk s)) \<and>
           cells (snd (Get New_v3 pk s)) p < fresh (snd (Get New_v3 pk s))"
    and "cells (snd (Get New_v3 pk s)) (fst (Get New_v3 pk s)) < fresh (snd (Get New_v3 pk s))"
proof -
  have d: "distinct (map (cells s) (bufPool s))"
    and b: "\<forall>p \<in> set (bufPool s). p < fresh s \<and> cells s p < fresh s"
    using assms by (simp_all add: pool_ok_v3_def storage_v3_def)
  have new: "map ((cells s)(Suc (fresh s) := fresh s)) (bufPool s) = map (cells s) (bufPool s)"
    using b by (auto simp: map_eq_conv)
  have rm: "distinct (map (cells s) (take i (bufPool s)) @ map (cells s) (drop (Suc i) (bufPool s)))
      \<and> cells s (bufPool s ! i) \<notin>
          set (map (cells s) (take i (bufPool s)) @ map (cells s) (drop (Suc i) (bufPool s)))"
    if i: "i < length (bufPool s)" for i
  proof -
    have "i < length (map (cells s) (bufPool s))" using i by simp
    from distinct_remove_nth [OF d this] i show ?thesis
      by (simp add: take_map drop_map)
  qed
  have fr: "fresh s \<notin> cells s ` set (bufPool s)" using b by auto
  show "cells (snd (Get New_v3 pk s)) (fst (Get New_v3 pk s))
           \<notin> cells (snd (Get New_v3 pk s)) ` set (bufPool (snd (Get New_v3 pk s)))"
  proof (cases "\<exists>i. pk = Some i \<and> i < length (bufPool s)")
    case True
    then obtain i where "pk = Some i" "i < length (bufPool s)" by blast
    then show ?thesis using rm [of i] by (simp add: Get_def image_Un)
  next
    case False
    then have "Get New_v3 pk s = New_v3 s" by (auto simp: Get_def split: option.splits)
    then show ?thesis using fr new b by (auto simp: New_v3_def)
  qed
  show "distinct (map (cells (snd (Get New_v3 pk s))) (bufPool (snd (Get New_v3 pk s))))"
  proof (cases "\<exists>i. pk = Some i \<and> i < length (bufPool s)")
    case True
    then obtain i where "pk = Some i" "i < length (bufPool s)" by blast
    then show ?thesis using rm [of i] by (simp add: Get_def)
  next
    case False
    then have "Get New_v3 pk s = New_v3 s" by (auto simp: Get_def split: option.splits)
    moreover have "distinct (map ((cells s)(Suc (fresh s) := fresh s)) (bufPool s))"
      unfolding new by (rule d)
    ultimately show ?thesis by (simp add: New_v3_def)
  qed
  show "\<forall>p \<in> set (bufPool (snd (Get New_v3 pk s))).
           p < fresh (snd (Get New_v3 pk s)) \<and>
           cells (snd (Get New_v3 pk s)) p < fresh (snd (Get New_v3 pk s))"
    using b set_remove_nth [of _ "bufPool s"]
    by (auto simp: Get_def New_v3_def less_Suc_eq split: option.splits)
  show "cells (snd (Get New_v3 pk s)) (fst (Get New_v3 pk s)) < fresh (snd (Get New_v3 pk s))"
    using b by (auto simp: Get_def New_v3_def split: option.splits)
qed

lemma startNTPServer_v3_bufPool:
  "\<not> ctx_Done inp \<Longrightarrow>
   bufPool (snd (startNTPServer_v3 Decode inp s)) =
     bufPool (snd (Get New_v3 (pick inp) s)) @ [fresh (snd (Get New_v3 (pick inp) s))]"
  by (simp add: startNTPServer_v3_def Let_def split_beta split: sum.splits)

lemma startNTPServer_v3_fresh:
  "\<not> ctx_Done inp \<Longrightarrow>
   fresh (snd (startNTPServer_v3 Decode inp s)) = Suc (fresh (snd (Get New_v3 (pick inp) s)))"
  by (simp add: startNTPServer_v3_def Let_def split_beta split: sum.splits)

lemma startNTPServer_v3_cells:
  "\<not> ctx_Done inp \<Longrightarrow>
   cells (snd (startNTPServer_v3 Decode inp s)) =
     (cells (snd (Get New_v3 (pick inp) s)))
       (fresh (snd (Get New_v3 (pick inp) s)) :=
          cells (snd (Get New_v3 (pick inp) s)) (fst (Get New_v3 (pick inp) s)))"
  by (simp add: startNTPServer_v3_def Let_def split_beta split: sum.splits)

lemma startNTPServer_v3_storage:
  assumes "pool_ok_v3 s" and "\<not> ctx_Done inp"
  shows "storage_v3 (snd (startNTPServer_v3 Decode inp s)) = left_v3 inp s @ [checked_out_v3 inp s]"
proof -
  define s1 where "s1 = snd (Get New_v3 (pick inp) s)"
  define p where "p = fst (Get New_v3 (pick inp) s)"
  have b: "\<forall>q \<in> set (bufPool s1). q < fresh s1"
    using Get_v3_pool(3) [OF assms(1), of "pick inp"] by (simp add: s1_def)
  have "map ((cells s1)(fresh s1 := cells s1 p)) (bufPool s1) = map (cells s1) (bufPool s1)"
    using b by (auto simp: map_eq_conv)
  then show ?thesis
    using assms(2)
    by (simp add: storage_v3_def left_v3_def checked_out_v3_def split_beta
        startNTPServer_v3_bufPool startNTPServer_v3_cells s1_def p_def)
qed

lemma startNTPServer_v3_pool_ok:
  assumes "pool_ok_v3 s"
  shows "pool_ok_v3 (snd (startNTPServer_v3 Decode inp s))"
proof (cases "ctx_Done inp")
  case True
  then show ?thesis
    using assms by (simp add: startNTPServer_v3_def pool_ok_v3_def storage_v3_def)
next
  case False
  define s1 where "s1 = snd (Get New_v3 (pick inp) s)"
  define p where "p = fst (Get New_v3 (pick inp) s)"
  note g = Get_v3_pool [OF assms, of "pick inp", folded s1_def p_def]
  have st: "storage_v3 (snd (startNTPServer_v3 Decode inp s))
       = map (cells s1) (bufPool s1) @ [cells s1 p]"
    using startNTPServer_v3_storage [OF assms False, of Decode]
    by (simp add: left_v3_def checked_out_v3_def storage_v3_def split_beta s1_def p_def)
  have "distinct (map (cells s1) (bufPool s1) @ [cells s1 p])"
    using g(1) g(2) by simp
  moreover have "\<forall>q \<in> set (bufPool (snd (startNTPServer_v3 Decode inp s))).
      q < fresh (snd (startNTPServer_v3 Decode inp s)) \<and>
      cells (snd (startNTPServer_v3 Decode inp s)) q < fresh (snd (startNTPServer_v3 Decode inp s))"
    using g(3) g(4) False
    by (auto simp: startNTPServer_v3_bufPool startNTPServer_v3_cells startNTPServer_v3_fresh
        s1_def [symmetric] p_def [symmetric] less_Suc_eq)
  ultimately show ?thesis
    unfolding pool_ok_v3_def st by simp
qed

lemma processTelegramMessages_v1_pool_ok:
  "pool_ok_v1 s \<Longrightarrow> pool_ok_v1 (snd (processTelegramMessages_v1 token chatID inp s))"
  by (simp add: pool_ok_v1_def storage_v1_def)

lemma processTelegramMessages_v3_pool_ok:
  "pool_ok_v3 s \<Longrightarrow> pool_ok_v3 (snd (processTelegramMessages_v3 token chatID inp s))"
  by (simp add: pool_ok_v3_def storage_v3_def)

lemma run_v1_pool_ok: "pool_ok_v1 (state (run_v1 token chatID es start))"
  unfolding run_v1_def
proof (rule run_invariant [where P = pool_ok_v1])
  show "pool_ok_v1 (state start)"
    by (simp add: start_def init_def pool_ok_v1_def storage_v1_def)
qed (simp_all only: startNTPServer_v1_pool_ok processTelegramMessages_v1_pool_ok)

lemma run_v3_pool_ok: "pool_ok_v3 (state (run_v3 Decode token chatID es start))"
  unfolding run_v3_def
proof (rule run_invariant [where P = pool_ok_v3])
  show "pool_ok_v3 (state start)"
    by (simp add: start_def init_def pool_ok_v3_def storage_v3_def)
qed (simp_all only: startNTPServer_v3_pool_ok processTelegramMessages_v3_pool_ok)

text \<open>
  In part_001 the pointer put back is not the pointer taken out: it is the address of
  the iteration's own variable \<open>buf\<close>, a copy of the slice header. The array behind it
  is the one taken out.
\<close>

lemma startNTPServer_v3_pointer_is_new:
  assumes "pool_ok_v3 s" and "\<not> ctx_Done inp" and "pick inp = Some i" and "i < length (bufPool s)"
  shows "last (bufPool (snd (startNTPServer_v3 Decode inp s))) = fresh s
       \<and> bufPool s ! i < fresh s"
  using assms
  by (simp add: startNTPServer_v3_bufPool Get_def pool_ok_v3_def)

lemma Get_reuse:
  "i < length (bufPool s) \<Longrightarrow>
   Get New (Some i) s = (bufPool s ! i, s\<lparr>bufPool := take i (bufPool s) @ drop (Suc i) (bufPool s)\<rparr>)"
  by (simp add: Get_def)

text \<open>
  C9. Every iteration of the listener that is not cancelled checks one buffer out of
  the pool and puts it back, whatever the read returns and whatever follows: at the end
  of the iteration the pool holds the arrays it held while the buffer was out, and the
  array of that buffer. Iterations run one after another, so one buffer is out at a
  time; its array is none of the arrays left in the pool, and no two pooled items ever
  share an array, from the start of the program on and under every schedule. When the
  pool hands out a pooled item, the buffer's array is that item's array, not a new one.
  This holds for the pool of slices of main.go and for the pool of pointers of part_001.
\<close>

theorem buffer_returned_on_every_path:
  assumes "\<not> ctx_Done inp"
  shows "(pool_ok_v1 s \<longrightarrow>
            checked_out_v1 inp s \<notin> set (left_v1 inp s)
          \<and> storage_v1 (snd (startNTPServer_v1 inp s)) = left_v1 inp s @ [checked_out_v1 inp s]
          \<and> pool_ok_v1 (snd (startNTPServer_v1 inp s)))
       \<and> (pool_ok_v3 s \<longrightarrow>
            checked_out_v3 inp s \<notin> set (left_v3 inp s)
          \<and> storage_v3 (snd (startNTPServer_v3 Decode inp s))
              = left_v3 inp s @ [checked_out_v3 inp s]
          \<and> pool_ok_v3 (snd (startNTPServer_v3 Decode inp s)))
       \<and> (pick inp = Some i \<and> i < length (bufPool s) \<longrightarrow>
            checked_out_v1 inp s = storage_v1 s ! i
          \<and> left_v1 inp s = take i (storage_v1 s) @ drop (Suc i) (storage_v1 s)
          \<and> checked_out_v3 inp s = storage_v3 s ! i
          \<and> left_v3 inp s = take i (storage_v3 s) @ drop (Suc i) (storage_v3 s))
       \<and> pool_ok_v1 (state (run_v1 token chatID es start))
       \<and> pool_ok_v3 (state (run_v3 Decode token chatID es start))"
proof -
  have v1: "checked_out_v1 inp s \<notin> set (left_v1 inp s)
          \<and> storage_v1 (snd (startNTPServer_v1 inp s)) = left_v1 inp s @ [checked_out_v1 inp s]
          \<and> pool_ok_v1 (snd (startNTPServer_v1 inp s))" if ok: "pool_ok_v1 s"
    using Get_v1_pool(1) [OF ok, of "pick inp"] startNTPServer_v1_pool_ok [OF ok, of inp] assms
    by (simp add: checked_out_v1_def left_v1_def storage_v1_def startNTPServer_v1_bufPool)
  have v3: "checked_out_v3 inp s \<notin> set (left_v3 inp s)
          \<and> storage_v3 (snd (startNTPServer_v3 Decode inp s))
              = left_v3 inp s @ [checked_out_v3 inp s]
          \<and> pool_ok_v3 (snd (startNTPServer_v3 Decode inp s))" if ok: "pool_ok_v3 s"
    using Get_v3_pool(1) [OF ok, of "pick inp"] startNTPServer_v3_pool_ok [OF ok, of Decode inp]
      startNTPServer_v3_storage [OF ok assms, of Decode]
    by (simp add: checked_out_v3_def left_v3_def storage_v3_def split_beta)
  have reuse: "checked_out_v1 inp s = storage_v1 s ! i
          \<and> left_v1 inp s = take i (storage_v1 s) @ drop (Suc i) (storage_v1 s)
          \<and> checked_out_v3 inp s = storage_v3 s ! i
          \<and> left_v3 inp s = take i (storage_v3 s) @ drop (Suc i) (storage_v3 s)"
    if "pick inp = Some i" and "i < length (bufPool s)"
    using that
    by (simp add: checked_out_v1_def left_v1_def storage_v1_def checked_out_v3_def left_v3_def
        storage_v3_def Get_reuse take_map drop_map)
  show ?thesis
    using v1 v3 reuse run_v1_pool_ok [of token chatID es] run_v3_pool_ok [of Decode token chatID es]
    by blast
qed

theorem buffer_returned_on_every_path_witness:
  "\<not> ctx_Done ((datagram (replicate 10 0)) \<lparr>pick := Some 0\<rparr>)
   \<and> pick ((datagram (replicate 10 0)) \<lparr>pick := Some 0\<rparr>) = Some 0
   \<and> pool_ok_v1 (snd (startNTPServer_v1 (datagram (replicate 10 0)) init))
   \<and> storage_v1 (snd (startNTPServer_v1 (datagram (replicate 10 0)) init)) = [0]
   \<and> checked_out_v1 ((datagram (replicate 10 0)) \<lparr>pick := Some 0\<rparr>)
        (snd (startNTPServer_v1 (datagram (replicate 10 0)) init)) = 0
   \<and> storage_v1 (snd (startNTPServer_v1 ((datagram (replicate 10 0)) \<lparr>pick := Some 0\<rparr>)
        (snd (startNTPServer_v1 (datagram (replicate 10 0)) init)))) = [0]
   \<and> pool_ok_v3 (snd (startNTPServer_v3 undecodable (datagram (replicate 10 0)) init))
   \<and> storage_v3 (snd (startNTPServer_v3 undecodable (datagram (replicate 10 0)) init)) = [0]
   \<and> checked_out_v3 ((datagram (replicate 10 0)) \<lparr>pick := Some 0\<rparr>)
        (snd (startNTPServer_v3 undecodable (datagram (replicate 10 0)) init)) = 0
   \<and> storage_v3 (snd (startNTPServer_v3 undecodable ((datagram (replicate 10 0)) \<lparr>pick := Some 0\<rparr>)
        (snd (startNTPServer_v3 undecodable (datagram (replicate 10 0)) init)))) = [0]"
proof -
  let ?inp = "(datagram (replicate 10 0)) \<lparr>pick := Some 0\<rparr>"
  let ?s1 = "snd (startNTPServer_v1 (datagram (replicate 10 0)) init)"
  let ?s3 = "snd (startNTPServer_v3 undecodable (datagram (replicate 10 0)) init)"
  have inp: "\<not> ctx_Done ?inp" "pick ?inp = Some 0"
    by (simp_all add: datagram_def)
  have p1: "bufPool ?s1 = [0]" "fresh ?s1 = 1"
    by (simp_all add: startNTPServer_v1_bufPool startNTPServer_v1_fresh datagram_def Get_def
        New_v1_def init_def)
  have p3: "bufPool ?s3 = [2]" "fresh ?s3 = 3" "cells ?s3 2 = 0"
    by (simp_all add: startNTPServer_v3_bufPool startNTPServer_v3_fresh startNTPServer_v3_cells
        datagram_def Get_def New_v3_def init_def)
  have ok1: "pool_ok_v1 ?s1" and st1: "storage_v1 ?s1 = [0]"
    using p1 by (simp_all add: pool_ok_v1_def storage_v1_def)
  have ok3: "pool_ok_v3 ?s3" and st3: "storage_v3 ?s3 = [0]"
    using p3 by (simp_all add: pool_ok_v3_def storage_v3_def)
  have len: "0 < length (bufPool ?s1)" "0 < length (bufPool ?s3)"
    using p1 p3 by simp_all
  show ?thesis
    using buffer_returned_on_every_path [OF inp(1), of ?s1 undecodable 0 "[]" "[]" "[]"]
      buffer_returned_on_every_path [OF inp(1), of ?s3 undecodable 0 "[]" "[]" "[]"]
      inp ok1 ok3 st1 st3 len p1 p3
    by simp
qed

end
